theory Spec2Isabelle
  imports Complex_Main "HOL-Library.Word" "HOL-Library.Signed_Division"
begin

unbundle bit_operations_syntax

section \<open>Pagination (unicore.go)\<close>

text \<open>
  Go's \<^verbatim>\<open>int32\<close> and \<^verbatim>\<open>int64\<close> are \<open>32 word\<close> and \<open>64 word\<close>: \<open>+\<close>, \<open>-\<close> and \<open>*\<close>
  wrap around, \<open>sint\<close> reads the two's complement value, so \<^verbatim>\<open>x <= 0\<close> on a signed
  integer is \<open>sint x \<le> 0\<close>. The conversion \<^verbatim>\<open>int64(limit)\<close> is the sign extension
  \<open>scast\<close>, the conversion \<^verbatim>\<open>int32(...)\<close> of an \<^verbatim>\<open>int64\<close> keeps the low 32 bits
  (\<open>ucast\<close>), and \<^verbatim>\<open>int(x)\<close> of an \<^verbatim>\<open>int32\<close> keeps its value (\<open>sint\<close>).
\<close>

text \<open>
  Go's \<^verbatim>\<open>/\<close> on signed integers truncates towards zero. Division by zero panics in Go;
  the only division of the package is guarded by \<^verbatim>\<open>limit <= 0\<close>.
\<close>

definition go_quo :: "'a::len word \<Rightarrow> 'a word \<Rightarrow> 'a word" where
  "go_quo a b = word_of_int (sint a sdiv sint b)"

text \<open>\<^verbatim>\<open>type PagedResult[T any] struct { Items T; Total int64 }\<close> (types.go)\<close>

record 'a PagedResult =
  Items :: 'a
  Total :: "64 word"

text \<open>
  The receiver is a pointer: \<open>None\<close> is the nil pointer.
  \<^verbatim>\<open>
  func (p *PagedResult[T]) GetTotalPages(limit int32) int32 {
      if p == nil || limit <= 0 { return 0 }
      return int32((p.Total + int64(limit) - 1) / int64(limit))
  }\<close>
\<close>

definition GetTotalPages :: "'a PagedResult option \<Rightarrow> 32 word \<Rightarrow> 32 word" where
  "GetTotalPages p limit =
     (case p of
        None \<Rightarrow> 0
      | Some r \<Rightarrow>
          if sint limit \<le> 0 then 0
          else ucast (go_quo (Total r + scast limit - 1) (scast limit)))"

definition NewPagedResult :: "64 word \<Rightarrow> 'a \<Rightarrow> 'a PagedResult option" where
  "NewPagedResult tot its = Some \<lparr>Items = its, Total = tot\<rparr>"

text \<open>
  \<^verbatim>\<open>commonv1.PageRequest\<close> and \<^verbatim>\<open>commonv1.SortDirection\<close> are generated protocol-buffer
  code of another module. The request has the four fields the scope reads; page and limit are
  taken to be \<^verbatim>\<open>int32\<close>, the type \<^verbatim>\<open>GetTotalPages\<close> gives its limit and the one the
  conversions \<^verbatim>\<open>int(limit)\<close> and \<^verbatim>\<open>int(offset)\<close> of the scope start from. The getters of
  generated code return the field, and the zero value on a nil request.
\<close>

datatype SortDirection =
    SORT_DIRECTION_UNSPECIFIED
  | SORT_DIRECTION_ASC
  | SORT_DIRECTION_DESC

record PageRequest =
  Page :: "32 word"
  Limit :: "32 word"
  Sort :: string
  Direction :: SortDirection

definition GetPage :: "PageRequest option \<Rightarrow> 32 word" where
  "GetPage x = (case x of None \<Rightarrow> 0 | Some r \<Rightarrow> Page r)"

definition GetLimit :: "PageRequest option \<Rightarrow> 32 word" where
  "GetLimit x = (case x of None \<Rightarrow> 0 | Some r \<Rightarrow> Limit r)"

definition GetSort :: "PageRequest option \<Rightarrow> string" where
  "GetSort x = (case x of None \<Rightarrow> [] | Some r \<Rightarrow> Sort r)"

definition GetDirection :: "PageRequest option \<Rightarrow> SortDirection" where
  "GetDirection x = (case x of None \<Rightarrow> SORT_DIRECTION_UNSPECIFIED | Some r \<Rightarrow> Direction r)"

text \<open>
  The query \<^verbatim>\<open>*gorm.DB\<close> is the list of the clauses the scopes have applied to it, in the
  order of the calls; \<^verbatim>\<open>Limit\<close> and \<^verbatim>\<open>Offset\<close> take a Go \<^verbatim>\<open>int\<close>, \<^verbatim>\<open>Order\<close> the text
  of the clause.
\<close>

datatype gorm_clause =
    LimitClause int
  | OffsetClause int
  | OrderClause string

type_synonym gorm_DB = "gorm_clause list"

definition db_Limit :: "gorm_DB \<Rightarrow> int \<Rightarrow> gorm_DB" where
  "db_Limit db n = db @ [LimitClause n]"

definition db_Offset :: "gorm_DB \<Rightarrow> int \<Rightarrow> gorm_DB" where
  "db_Offset db n = db @ [OffsetClause n]"

definition db_Order :: "gorm_DB \<Rightarrow> string \<Rightarrow> gorm_DB" where
  "db_Order db s = db @ [OrderClause s]"

text \<open>
  \<^verbatim>\<open>
  page := pagination.GetPage();   if page <= 0 { page = 1 }
  limit := pagination.GetLimit(); if limit <= 0 { limit = 20 }
  offset := (page - 1) * limit
  db = db.Limit(int(limit)).Offset(int(offset))
  sort := pagination.GetSort(); direction := pagination.GetDirection()
  if sort == "" { sort = "created_at" }
  order := "desc"
  switch direction { case ASC: order = "asc"; case DESC: order = "desc" }
  db = db.Order(fmt.Sprintf("%s %s", sort, order))
  return db\<close>
\<close>

definition WithPaginationScope :: "PageRequest option \<Rightarrow> gorm_DB \<Rightarrow> gorm_DB" where
  "WithPaginationScope pagination db =
     (let page = GetPage pagination;
          page = (if sint page \<le> 0 then 1 else page);
          limit = GetLimit pagination;
          limit = (if sint limit \<le> 0 then 20 else limit);
          offset = (page - 1) * limit;
          db = db_Offset (db_Limit db (sint limit)) (sint offset);
          sort = GetSort pagination;
          direction = GetDirection pagination;
          sort = (if sort = [] then ''created_at'' else sort);
          order = ''desc'';
          order = (case direction of
                     SORT_DIRECTION_ASC \<Rightarrow> ''asc''
                   | SORT_DIRECTION_DESC \<Rightarrow> ''desc''
                   | _ \<Rightarrow> order);
          db = db_Order db (sort @ '' '' @ order)
      in db)"

section \<open>Errors (unicore.go)\<close>

text \<open>
  Go errors are kept as the terms that build them: \<^verbatim>\<open>errors.New(msg)\<close>,
  \<^verbatim>\<open>fmt.Errorf(format, err)\<close> with its format string and its one argument, and
  \<^verbatim>\<open>connect.NewError(code, err)\<close>. Of the codes of \<^verbatim>\<open>connect.Code\<close> the package uses
  three.
\<close>

datatype connect_Code = CodeInvalidArgument | CodeUnauthenticated | CodeInternal

datatype go_error =
    errors_New string
  | fmt_Errorf string go_error
  | connect_NewError connect_Code go_error

text \<open>The code of a \<^verbatim>\<open>*connect.Error\<close>; an error of another type has none.\<close>

fun Code :: "go_error \<Rightarrow> connect_Code option" where
  "Code (connect_NewError c e) = Some c"
| "Code (errors_New m) = None"
| "Code (fmt_Errorf f e) = None"

definition ErrMissingTenantHeader :: go_error where
  "ErrMissingTenantHeader =
     connect_NewError CodeInvalidArgument (errors_New ''x-tenant-id is required in the header'')"

definition ErrFailedParsingTokenClaims :: go_error where
  "ErrFailedParsingTokenClaims =
     connect_NewError CodeInvalidArgument (errors_New ''token claims could not be parsed'')"

definition ErrInvalidToken :: go_error where
  "ErrInvalidToken = connect_NewError CodeUnauthenticated (errors_New ''invalid token'')"

definition ErrMissingOrInvalidToken :: go_error where
  "ErrMissingOrInvalidToken =
     connect_NewError CodeUnauthenticated (errors_New ''missing or invalid token'')"

text \<open>A panic ends the call; nothing in the package recovers from one.\<close>

datatype panic = Panic string

section \<open>Claims and the per-call context (types.go, unicore.go)\<close>

record RealmAccess =
  Roles :: "string list"

record AccountRoles =
  AccountRoles_Roles :: "string list"

record ResourceAccess =
  Account :: AccountRoles

text \<open>
  \<^verbatim>\<open>UserAuthClaims\<close>, field by field; \<^verbatim>\<open>Id\<close> is written \<open>Id_sub\<close> after its JSON name.
  The embedded \<^verbatim>\<open>jwt.RegisteredClaims\<close> of the token library is kept as the text of its
  claims.
\<close>

record UserAuthClaims =
  Exp :: "64 word"
  Iat :: "64 word"
  Jti :: string
  Iss :: string
  Aud :: "string list"
  Id_sub :: string
  Typ :: string
  Azp :: string
  Sid :: string
  Acr :: string
  AllowedOrigins :: "string list"
  RealmAccess :: RealmAccess
  ResourceAccess :: ResourceAccess
  Scope :: string
  EmailVerified :: bool
  Organization :: "string list"
  Name :: string
  PreferredUsername :: string
  GivenName :: string
  FamilyName :: string
  Email :: string
  RegisteredClaims :: string

definition ContextKeyUser :: string where
  "ContextKeyUser = ''UserClaimsKey''"

definition XTenantKey :: string where
  "XTenantKey = ''x-tenant-id''"

text \<open>
  A \<^verbatim>\<open>context.Context\<close> is the chain of the values attached to it, the newest first.
  Keys and values are of type \<^verbatim>\<open>any\<close>: the two keys of the package are strings, a key of
  another type never equals them; a value is a string, a \<^verbatim>\<open>*UserAuthClaims\<close> (\<open>None\<close> the
  nil pointer) or a value of some other type. \<^verbatim>\<open>ctx.Value(key)\<close> is the newest value under
  the key, and nil (\<open>None\<close>) when there is none.
\<close>

datatype ctx_key = StringKey string | OtherKey nat

datatype ctx_value =
    StringValue string
  | UserAuthClaimsPtr "UserAuthClaims option"
  | OtherValue nat

type_synonym Context = "(ctx_key \<times> ctx_value) list"

definition context_WithValue :: "Context \<Rightarrow> ctx_key \<Rightarrow> ctx_value \<Rightarrow> Context" where
  "context_WithValue ctx k v = (k, v) # ctx"

definition ctx_Value :: "Context \<Rightarrow> ctx_key \<Rightarrow> ctx_value option" where
  "ctx_Value ctx k = map_of ctx k"

text \<open>
  \<^verbatim>\<open>
  func (helper *contextHelper) GetUserClaims(ctx context.Context) *UserAuthClaims {
      userClaims := ctx.Value(ContextKeyUser).(*UserAuthClaims)
      return userClaims
  }\<close>
  The type assertion has no \<^verbatim>\<open>, ok\<close> form: it panics on nil and on a value of another
  type.
\<close>

definition GetUserClaims :: "Context \<Rightarrow> panic + UserAuthClaims option" where
  "GetUserClaims ctx =
     (case ctx_Value ctx (StringKey ContextKeyUser) of
        Some (UserAuthClaimsPtr userClaims) \<Rightarrow> Inr userClaims
      | Some _ \<Rightarrow> Inl (Panic ''interface conversion: interface {} is not *unicore.UserAuthClaims'')
      | None \<Rightarrow> Inl (Panic ''interface conversion: interface {} is nil, not *unicore.UserAuthClaims''))"

section \<open>Values as reflection sees them\<close>

text \<open>
  The sanitizer works on any value through \<^verbatim>\<open>reflect\<close>. A value carries what reflection
  reads from it: booleans, integers and strings; pointers with the type they point to and an
  address of the heap (\<open>None\<close> the nil pointer); structs with the name of their type and
  their fields, each a name and a value, in the order of the declaration; slices and maps
  (\<open>None\<close> the nil ones); and, for a field of interface type, the value it holds
  (\<open>None\<close> the nil interface).
\<close>

datatype go_type =
  TBool | TInt | TString | TPtr go_type | TStruct string | TSlice go_type
  | TMap go_type go_type | TInterface

datatype go_value =
    VBool bool
  | VInt int
  | VString string
  | VPtr go_type "nat option"
  | VStruct string "(string \<times> go_value) list"
  | VSlice go_type "go_value list option"
  | VMap go_type go_type "(go_value \<times> go_value) list option"
  | VInterface "go_value option"

datatype reflect_Kind =
  reflect_Bool | reflect_Int | reflect_String | reflect_Ptr | reflect_Struct | reflect_Slice
  | reflect_Map | reflect_Interface

fun Kind :: "go_type \<Rightarrow> reflect_Kind" where
  "Kind TBool = reflect_Bool"
| "Kind TInt = reflect_Int"
| "Kind TString = reflect_String"
| "Kind (TPtr t) = reflect_Ptr"
| "Kind (TStruct n) = reflect_Struct"
| "Kind (TSlice t) = reflect_Slice"
| "Kind (TMap k t) = reflect_Map"
| "Kind TInterface = reflect_Interface"

fun TypeOf :: "go_value \<Rightarrow> go_type" where
  "TypeOf (VBool b) = TBool"
| "TypeOf (VInt i) = TInt"
| "TypeOf (VString s) = TString"
| "TypeOf (VPtr t a) = TPtr t"
| "TypeOf (VStruct n fs) = TStruct n"
| "TypeOf (VSlice t xs) = TSlice t"
| "TypeOf (VMap k t xs) = TMap k t"
| "TypeOf (VInterface x) = TInterface"

text \<open>\<^verbatim>\<open>reflect.Zero\<close>: the zero value of the type of a value.\<close>

fun Zero :: "go_value \<Rightarrow> go_value" and Zero_fields :: "(string \<times> go_value) list \<Rightarrow> (string \<times> go_value) list" where
  "Zero (VBool b) = VBool False"
| "Zero (VInt i) = VInt 0"
| "Zero (VString s) = VString []"
| "Zero (VPtr t a) = VPtr t None"
| "Zero (VStruct n fs) = VStruct n (Zero_fields fs)"
| "Zero (VSlice t xs) = VSlice t None"
| "Zero (VMap k t xs) = VMap k t None"
| "Zero (VInterface x) = VInterface None"
| "Zero_fields [] = []"
| "Zero_fields ((name, v) # fs) = (name, Zero v) # Zero_fields fs"

text \<open>
  Names are modelled for ASCII identifiers. Go exports a name whose first letter is an
  upper-case letter of any script, and \<^verbatim>\<open>strings.ToLower\<close> lower-cases the letters of
  every script; on a name of ASCII characters both are what is defined here: the first
  letter is one of A to Z, and lower-casing sets, on the letters A to Z, the bit of value 32
  in which upper and lower case differ. \<open>IsASCII\<close> says that a name is of ASCII
  characters; what is proved below about the fields of a struct is proved for such names.
\<close>

definition IsASCII :: "string \<Rightarrow> bool" where
  "IsASCII name = list_all (\<lambda>c. (of_char c :: nat) < 128) name"

definition IsUpper :: "char \<Rightarrow> bool" where
  "IsUpper c = (65 \<le> (of_char c :: nat) \<and> (of_char c :: nat) \<le> 90)"

definition IsLower :: "char \<Rightarrow> bool" where
  "IsLower c = (97 \<le> (of_char c :: nat) \<and> (of_char c :: nat) \<le> 122)"

fun with_case_bit :: "bool \<Rightarrow> char \<Rightarrow> char" where
  "with_case_bit v (Char b0 b1 b2 b3 b4 b5 b6 b7) = Char b0 b1 b2 b3 b4 v b6 b7"

definition to_lower :: "char \<Rightarrow> char" where
  "to_lower c = (if IsUpper c then with_case_bit True c else c)"

definition to_upper :: "char \<Rightarrow> char" where
  "to_upper c = (if IsLower c then with_case_bit False c else c)"

definition ToLower :: "string \<Rightarrow> string" where
  "ToLower s = map to_lower s"

text \<open>
  A field is exported when its name starts with an upper-case letter. The fields of a value
  that came from \<^verbatim>\<open>reflect.ValueOf\<close> can be read through \<^verbatim>\<open>Interface()\<close> exactly when
  they are exported.
\<close>

definition IsExported :: "string \<Rightarrow> bool" where
  "IsExported name = (case name of [] \<Rightarrow> False | c # cs \<Rightarrow> IsUpper c)"

definition CanInterface :: "string \<Rightarrow> bool" where
  "CanInterface name = IsExported name"

section \<open>The heap\<close>

text \<open>
  Pointers address the cells of a heap, a list of values; the address is the index.
  \<^verbatim>\<open>reflect.New\<close> allocates the next cell. A pointer that is not nil addresses a cell: Go
  has no other pointers, and the model panics on one.
\<close>

type_synonym heap = "go_value list"

definition reflect_New :: "heap \<Rightarrow> go_value \<Rightarrow> nat \<times> heap" where
  "reflect_New h z = (length h, h @ [z])"

definition Elem :: "heap \<Rightarrow> go_value \<Rightarrow> panic + go_value" where
  "Elem h v =
     (case v of
        VPtr t (Some a) \<Rightarrow>
          if a < length h then Inr (h ! a) else Inl (Panic ''invalid memory address'')
      | _ \<Rightarrow> Inr v)"

text \<open>Writing field \<open>i\<close> of the struct in cell \<open>a\<close>.\<close>

definition set_field :: "heap \<Rightarrow> nat \<Rightarrow> nat \<Rightarrow> go_value \<Rightarrow> heap" where
  "set_field h a i x =
     (case h ! a of
        VStruct n fs \<Rightarrow> h[a := VStruct n (fs[i := (fst (fs ! i), x)])]
      | _ \<Rightarrow> h)"

text \<open>
  \<^verbatim>\<open>reflect.Value.Set\<close> panics unless the type of the value is assignable to the type of
  the field: the types are identical, or the field is of the empty interface type.
\<close>

definition AssignableTo :: "go_type \<Rightarrow> go_type \<Rightarrow> bool" where
  "AssignableTo t u = (t = u \<or> u = TInterface)"

definition reflect_Set :: "heap \<Rightarrow> nat \<Rightarrow> nat \<Rightarrow> go_type \<Rightarrow> go_value \<Rightarrow> panic + heap" where
  "reflect_Set h a i t x =
     (if AssignableTo (TypeOf x) t then Inr (set_field h a i x)
      else Inl (Panic ''reflect.Set: value is not assignable to the type of the field''))"

section \<open>The sanitizer (middleware)\<close>

text \<open>
  \<^verbatim>\<open>
  copied := reflect.New(rt).Elem()
  for i := 0; i < rt.NumField(); i++ {
      field := rt.Field(i); value := rv.Field(i)
      fieldName := strings.ToLower(field.Name)
      if !value.CanInterface() { continue }
      if _, isSensitive := sensitiveFields[fieldName]; isSensitive {
          if field.Type.Kind() == reflect.String { copied.Field(i).SetString("[REDACTED]") }
          else { copied.Field(i).Set(reflect.Zero(field.Type)) }
      } else if field.Type.Kind() == reflect.Struct {
          sanitized := sanitize(value.Interface(), sensitiveFields)
          copied.Field(i).Set(reflect.ValueOf(sanitized))
      } else { copied.Field(i).Set(value) }
  }
  return copied.Addr().Interface()\<close>
  \<open>sanitize_struct\<close> is this part of \<^verbatim>\<open>sanitize\<close>, for the struct \<^verbatim>\<open>rv\<close> of type name
  \<open>n\<close> and fields \<open>fs\<close>; \<open>sanitize_fields\<close> is its loop from index \<open>i\<close> on, over the
  fields still to visit, with the copy in cell \<open>a\<close>. The recursive call is on the value of a
  field of struct kind: that value is not nil and not a pointer, so the call is at once at
  this part (lemma \<open>sanitize_of_struct\<close> below).
\<close>

fun sanitize_struct :: "string set \<Rightarrow> heap \<Rightarrow> string \<Rightarrow> (string \<times> go_value) list
      \<Rightarrow> panic + (go_value \<times> heap)"
  and sanitize_fields :: "string set \<Rightarrow> heap \<Rightarrow> nat \<Rightarrow> nat \<Rightarrow> (string \<times> go_value) list
      \<Rightarrow> panic + heap"
where
  "sanitize_struct sensitiveFields h n fs =
     (case reflect_New h (Zero (VStruct n fs)) of (a, h1) \<Rightarrow>
        (case sanitize_fields sensitiveFields h1 a 0 fs of
           Inl p \<Rightarrow> Inl p
         | Inr h2 \<Rightarrow> Inr (VPtr (TStruct n) (Some a), h2)))"
| "sanitize_fields sensitiveFields h a i [] = Inr h"
| "sanitize_fields sensitiveFields h a i ((name, v) # rest) =
     (if \<not> CanInterface name then sanitize_fields sensitiveFields h a (Suc i) rest
      else if ToLower name \<in> sensitiveFields then
        (if Kind (TypeOf v) = reflect_String
         then sanitize_fields sensitiveFields (set_field h a i (VString ''[REDACTED]'')) a (Suc i) rest
         else
           (case reflect_Set h a i (TypeOf v) (Zero v) of
              Inl p \<Rightarrow> Inl p
            | Inr h' \<Rightarrow> sanitize_fields sensitiveFields h' a (Suc i) rest))
      else
        (case v of
           VStruct n' fs' \<Rightarrow>
             (case sanitize_struct sensitiveFields h n' fs' of
                Inl p \<Rightarrow> Inl p
              | Inr (sanitized, h') \<Rightarrow>
                  (case reflect_Set h' a i (TypeOf v) sanitized of
                     Inl p \<Rightarrow> Inl p
                   | Inr h'' \<Rightarrow> sanitize_fields sensitiveFields h'' a (Suc i) rest))
         | _ \<Rightarrow>
             (case reflect_Set h a i (TypeOf v) v of
                Inl p \<Rightarrow> Inl p
              | Inr h' \<Rightarrow> sanitize_fields sensitiveFields h' a (Suc i) rest)))"

text \<open>
  \<^verbatim>\<open>
  func sanitize(v interface{}, sensitiveFields map[string]struct{}) interface{} {
      if v == nil { return nil }
      rv := reflect.ValueOf(v); rt := reflect.TypeOf(v)
      if rv.Kind() == reflect.Ptr && !rv.IsNil() { rv = rv.Elem(); rt = rt.Elem() }
      if rv.Kind() != reflect.Struct { return v }
      ...
  }\<close>
  The argument is an interface value: \<open>None\<close> is nil.
\<close>

definition sanitize :: "go_value option \<Rightarrow> string set \<Rightarrow> heap \<Rightarrow> panic + (go_value option \<times> heap)" where
  "sanitize v sensitiveFields h =
     (case v of
        None \<Rightarrow> Inr (None, h)
      | Some x \<Rightarrow>
          (case Elem h x of
             Inl p \<Rightarrow> Inl p
           | Inr rv \<Rightarrow>
               (case rv of
                  VStruct n fs \<Rightarrow>
                    (case sanitize_struct sensitiveFields h n fs of
                       Inl p \<Rightarrow> Inl p
                     | Inr (copied, h') \<Rightarrow> Inr (Some copied, h'))
                | _ \<Rightarrow> Inr (v, h))))"

definition sanitizeRequest :: "go_value option \<Rightarrow> heap \<Rightarrow> panic + (go_value option \<times> heap)" where
  "sanitizeRequest req h =
     sanitize req {''password'', ''token'', ''secret'', ''apikey'', ''apiKey'', ''auth''} h"

section \<open>Requests, responses and handlers\<close>

text \<open>
  \<^verbatim>\<open>http.Header\<close> is a map from the canonical form of a header name to its values;
  \<^verbatim>\<open>Get\<close> canonicalises the name it is given and returns the first value under it, and
  the empty string when there is none. The canonical form starts every run of letters after
  the start and after a hyphen with an upper-case letter, the other letters are lower-case.
\<close>

fun canonical :: "bool \<Rightarrow> string \<Rightarrow> string" where
  "canonical upper [] = []"
| "canonical upper (c # cs) =
     (if upper \<and> IsLower c then to_upper c # canonical (to_upper c = CHR ''-'') cs
      else if \<not> upper \<and> IsUpper c then to_lower c # canonical (to_lower c = CHR ''-'') cs
      else c # canonical (c = CHR ''-'') cs)"

definition CanonicalMIMEHeaderKey :: "string \<Rightarrow> string" where
  "CanonicalMIMEHeaderKey s = canonical True s"

type_synonym http_Header = "string \<rightharpoonup> string list"

definition Header_Get :: "http_Header \<Rightarrow> string \<Rightarrow> string" where
  "Header_Get hdr key =
     (case hdr (CanonicalMIMEHeaderKey key) of
        None \<Rightarrow> []
      | Some [] \<Rightarrow> []
      | Some (v # vs) \<Rightarrow> v)"

text \<open>
  Of a \<^verbatim>\<open>connect.AnyRequest\<close> the middleware reads the procedure of its spec and its
  header, and hands the request itself to the sanitizer. The value behind the interface is
  always a pointer to a \<^verbatim>\<open>connect.Request[T]\<close>, the wrapper of the message: \<open>Self\<close>
  is the address of the wrapper in the heap, \<open>request_value\<close> the pointer reflection is
  given. A \<^verbatim>\<open>connect.AnyResponse\<close> is an interface value, \<open>None\<close> is nil; a response
  that is not nil is a pointer to a \<^verbatim>\<open>connect.Response[T]\<close>.
\<close>

record AnyRequest =
  Procedure :: string
  Header :: http_Header
  Self :: nat

definition request_value :: "AnyRequest \<Rightarrow> go_value" where
  "request_value req = VPtr (TStruct ''connect.Request'') (Some (Self req))"

type_synonym AnyResponse = "go_value option"

text \<open>
  The wrappers are declared by the connect library: a request has the exported field
  \<^verbatim>\<open>Msg\<close>, a pointer to the message, and the unexported fields \<^verbatim>\<open>spec\<close>,
  \<^verbatim>\<open>peer\<close>, \<^verbatim>\<open>header\<close> and \<^verbatim>\<open>method\<close>; a response has \<^verbatim>\<open>Msg\<close> and the
  unexported \<^verbatim>\<open>header\<close> and \<^verbatim>\<open>trailer\<close>. The two predicates say that a value of
  the heap is such a wrapper.
\<close>

definition connect_Request :: "go_value \<Rightarrow> bool" where
  "connect_Request v =
     (case v of
        VStruct n fs \<Rightarrow>
          n = ''connect.Request''
          \<and> map fst fs = [''Msg'', ''spec'', ''peer'', ''header'', ''method'']
          \<and> Kind (TypeOf (snd (fs ! 0))) = reflect_Ptr
      | _ \<Rightarrow> False)"

definition connect_Response :: "go_value \<Rightarrow> bool" where
  "connect_Response v =
     (case v of
        VStruct n fs \<Rightarrow>
          n = ''connect.Response''
          \<and> map fst fs = [''Msg'', ''header'', ''trailer'']
          \<and> Kind (TypeOf (snd (fs ! 0))) = reflect_Ptr
      | _ \<Rightarrow> False)"

text \<open>
  A \<^verbatim>\<open>connect.UnaryFunc\<close> takes the context and the request and returns a response and an
  error (\<open>None\<close> is nil), or panics. What it does besides is a change of the state \<open>'s\<close> it
  runs in. An interceptor takes the next \<^verbatim>\<open>UnaryFunc\<close> and returns one.
\<close>

type_synonym 's UnaryFunc =
  "Context \<Rightarrow> AnyRequest \<Rightarrow> 's \<Rightarrow> (panic + AnyResponse \<times> go_error option) \<times> 's"

text \<open>
  \<^verbatim>\<open>
  tenantID := req.Header().Get(XTenantKey)
  if tenantID == "" { return nil, ErrMissingTenantHeader }
  newCtx := context.WithValue(ctx, XTenantKey, tenantID)
  return next(newCtx, req)\<close>
\<close>

definition UnaryTenantInterceptor :: "'s UnaryFunc \<Rightarrow> 's UnaryFunc" where
  "UnaryTenantInterceptor next ctx req s =
     (let tenantID = Header_Get (Header req) XTenantKey in
      if tenantID = [] then (Inr (None, Some ErrMissingTenantHeader), s)
      else
        (let newCtx = context_WithValue ctx (StringKey XTenantKey) (StringValue tenantID)
         in next newCtx req s))"

text \<open>
  The \<^verbatim>\<open>Authenticator\<close> is an interface implemented outside the package, over the OIDC
  library: \<^verbatim>\<open>ExtractHeaderToken\<close> returns a token and an error,
  \<^verbatim>\<open>GetVerifier().Verify\<close> a \<^verbatim>\<open>*oidc.IDToken\<close> (\<open>None\<close> is nil) and an error, both in
  the state they run in; \<^verbatim>\<open>idToken.Claims(claims)\<close> decodes the token into the claims it is
  given and returns them with an error.
\<close>

record ('s, 't) Authenticator =
  ExtractHeaderToken :: "AnyRequest \<Rightarrow> 's \<Rightarrow> (string \<times> go_error option) \<times> 's"
  Verify :: "Context \<Rightarrow> string \<Rightarrow> 's \<Rightarrow> ('t option \<times> go_error option) \<times> 's"
  Claims :: "'t \<Rightarrow> UserAuthClaims \<Rightarrow> UserAuthClaims \<times> go_error option"

text \<open>\<^verbatim>\<open>new(UserAuthClaims)\<close>: every field has its zero value.\<close>

definition new_UserAuthClaims :: UserAuthClaims where
  "new_UserAuthClaims =
     \<lparr>Exp = 0, Iat = 0, Jti = [], Iss = [], Aud = [], Id_sub = [], Typ = [], Azp = [],
      Sid = [], Acr = [], AllowedOrigins = [], RealmAccess = \<lparr>Roles = []\<rparr>,
      ResourceAccess = \<lparr>Account = \<lparr>AccountRoles_Roles = []\<rparr>\<rparr>, Scope = [],
      EmailVerified = False, Organization = [], Name = [], PreferredUsername = [],
      GivenName = [], FamilyName = [], Email = [], RegisteredClaims = []\<rparr>"

text \<open>
  \<^verbatim>\<open>
  fullMethod := req.Spec().Procedure
  if slices.Contains(routes, fullMethod) { return next(ctx, req) }
  token, err := middleware.authenticator.ExtractHeaderToken(req)
  if err != nil {
      return nil, connect.NewError(connect.CodeUnauthenticated,
                                   fmt.Errorf("missing or invalid token: %v", err)) }
  idToken, err := middleware.authenticator.GetVerifier().Verify(ctx, token)
  if err != nil {
      return nil, connect.NewError(connect.CodeUnauthenticated,
                                   fmt.Errorf("invalid token: %v", err)) }
  claims := new(UserAuthClaims)
  if err := idToken.Claims(claims); err != nil {
      return nil, connect.NewError(connect.CodeInternal,
                                   fmt.Errorf("failed to parse token claims: %v", err)) }
  newCtx := context.WithValue(ctx, ContextKeyUser, claims)
  return next(newCtx, req)\<close>
\<close>

definition UnaryTokenInterceptor ::
    "('s, 't) Authenticator \<Rightarrow> string list \<Rightarrow> 's UnaryFunc \<Rightarrow> 's UnaryFunc" where
  "UnaryTokenInterceptor authenticator routes next ctx req s =
     (let fullMethod = Procedure req in
      if fullMethod \<in> set routes then next ctx req s
      else
        (case ExtractHeaderToken authenticator req s of
           ((token, Some err), s1) \<Rightarrow>
             (Inr (None, Some (connect_NewError CodeUnauthenticated
                                 (fmt_Errorf ''missing or invalid token: %v'' err))), s1)
         | ((token, None), s1) \<Rightarrow>
             (case Verify authenticator ctx token s1 of
                ((idToken, Some err), s2) \<Rightarrow>
                  (Inr (None, Some (connect_NewError CodeUnauthenticated
                                      (fmt_Errorf ''invalid token: %v'' err))), s2)
              | ((None, None), s2) \<Rightarrow>
                  (Inl (Panic ''invalid memory address or nil pointer dereference''), s2)
              | ((Some idToken, None), s2) \<Rightarrow>
                  (case Claims authenticator idToken new_UserAuthClaims of
                     (claims, Some err) \<Rightarrow>
                       (Inr (None, Some (connect_NewError CodeInternal
                                           (fmt_Errorf ''failed to parse token claims: %v'' err))), s2)
                   | (claims, None) \<Rightarrow>
                       (let newCtx = context_WithValue ctx (StringKey ContextKeyUser)
                                        (UserAuthClaimsPtr (Some claims))
                        in next newCtx req s2)))))"

section \<open>The logging interceptor\<close>

text \<open>
  The logger keeps the entries written to it, the oldest first. An entry has a level, a
  message and the fields given to it: \<^verbatim>\<open>zap.String\<close>, \<^verbatim>\<open>zap.Any\<close> with the interface
  value it is given, \<^verbatim>\<open>zap.Error\<close> and \<^verbatim>\<open>zap.Duration\<close>.
\<close>

datatype zap_Field =
    zap_String string string
  | zap_Any string "go_value option"
  | zap_Error go_error
  | zap_Duration string int

datatype zap_Level = InfoLevel | ErrorLevel

datatype log_entry = Entry zap_Level string "zap_Field list"

text \<open>
  The logging interceptor runs in a world with the heap the values live in, the log of
  \<^verbatim>\<open>loggR\<close> and the clock \<^verbatim>\<open>time.Now\<close> reads, in nanoseconds; the rest of the chain may
  change all three.
\<close>

record world =
  heap :: heap
  loggR :: "log_entry list"
  clock :: int

definition loggR_Info :: "string \<Rightarrow> zap_Field list \<Rightarrow> 'a world_scheme \<Rightarrow> 'a world_scheme" where
  "loggR_Info msg flds w = w\<lparr>loggR := loggR w @ [Entry InfoLevel msg flds]\<rparr>"

definition loggR_Error :: "string \<Rightarrow> zap_Field list \<Rightarrow> 'a world_scheme \<Rightarrow> 'a world_scheme" where
  "loggR_Error msg flds w = w\<lparr>loggR := loggR w @ [Entry ErrorLevel msg flds]\<rparr>"

text \<open>
  \<^verbatim>\<open>
  start := time.Now()
  fullMethod := request.Spec().Procedure
  sanitizedReq := middleware.sanitizeRequest(request)
  middleware.loggR.Info("gRPC request received",
      zap.String("method", fullMethod), zap.Any("request", sanitizedReq))
  resp, err := next(ctx, request)
  duration := time.Since(start)
  if err != nil {
      middleware.loggR.Error("gRPC request failed",
          zap.String("method", fullMethod), zap.Error(err), zap.Duration("duration", duration))
  } else {
      middleware.loggR.Info("gRPC request completed",
          zap.String("method", fullMethod), zap.Any("response", resp),
          zap.Duration("duration", duration))
  }
  return resp, err\<close>
\<close>

definition LoggingUnaryInterceptor :: "'a world_scheme UnaryFunc \<Rightarrow> 'a world_scheme UnaryFunc" where
  "LoggingUnaryInterceptor next ctx request w =
     (let start = clock w;
          fullMethod = Procedure request
      in case sanitizeRequest (Some (request_value request)) (heap w) of
           Inl p \<Rightarrow> (Inl p, w)
         | Inr (sanitizedReq, h) \<Rightarrow>
             (let w1 = loggR_Info ''gRPC request received''
                         [zap_String ''method'' fullMethod, zap_Any ''request'' sanitizedReq]
                         (w\<lparr>heap := h\<rparr>)
              in case next ctx request w1 of
                   (Inl p, w2) \<Rightarrow> (Inl p, w2)
                 | (Inr (resp, err), w2) \<Rightarrow>
                     (let duration = clock w2 - start
                      in case err of
                           Some e \<Rightarrow>
                             (Inr (resp, err),
                              loggR_Error ''gRPC request failed''
                                [zap_String ''method'' fullMethod, zap_Error e,
                                 zap_Duration ''duration'' duration] w2)
                         | None \<Rightarrow>
                             (Inr (resp, err),
                              loggR_Info ''gRPC request completed''
                                [zap_String ''method'' fullMethod, zap_Any ''response'' resp,
                                 zap_Duration ''duration'' duration] w2))))"

text \<open>
  The field the copy of a struct is expected to hold for a field of the original: the
  redaction marker or the zero value when the field is exported and its lower-cased name is
  sensitive, the original value when it is exported and not sensitive, and the zero value
  when it is not exported.
\<close>

definition redacted_field :: "string set \<Rightarrow> string \<times> go_value \<Rightarrow> string \<times> go_value" where
  "redacted_field sensitiveFields f =
     (case f of (name, v) \<Rightarrow>
        (name,
         if \<not> IsExported name then Zero v
         else if ToLower name \<in> sensitiveFields then
           (if Kind (TypeOf v) = reflect_String then VString ''[REDACTED]'' else Zero v)
         else v))"

section \<open>Properties of the pagination\<close>

lemma ceiling_divide_round_up:
  assumes l: "0 < (l::int)"
  shows "\<lceil>real_of_int t / real_of_int l\<rceil> = (t + l - 1) div l"
proof -
  have m: "0 \<le> t mod l" "t mod l < l" using l by simp_all
  have e: "t + l - 1 = (t mod l + l - 1) + (t div l) * l"
    by (simp add: algebra_simps)
  have "(t + l - 1) div l = t div l + (t mod l + l - 1) div l"
    by (subst e, subst div_mult_self1) (use l in simp_all)
  moreover have "(t mod l + l - 1) div l = (if t mod l = 0 then 0 else 1)"
  proof (cases "t mod l = 0")
    case True
    then show ?thesis using l by (simp add: div_pos_pos_trivial)
  next
    case False
    then have "0 \<le> t mod l - 1" "t mod l - 1 < l" using m by linarith+
    then have "(t mod l - 1) div l = 0" by (simp add: div_pos_pos_trivial)
    moreover have "(t mod l - 1 + 1 * l) div l = 1 + (t mod l - 1) div l"
      by (rule div_mult_self1) (use l in simp)
    ultimately have "(t mod l + l - 1) div l = 1" by (simp add: algebra_simps)
    with False show ?thesis by simp
  qed
  moreover have "(- t) div l = (if t mod l = 0 then - (t div l) else - (t div l) - 1)"
    using l by (simp add: zdiv_zminus1_eq_if)
  ultimately have "(t + l - 1) div l = - ((- t) div l)" by (simp split: if_splits)
  then show ?thesis by (simp add: ceiling_divide_eq_div)
qed

lemma sint_scast_32_64: "sint (scast (w :: 32 word) :: 64 word) = sint w"
  by (simp add: sint_up_scast is_up)

lemma ucast_64_32_of_int: "(ucast (word_of_int q :: 64 word) :: 32 word) = word_of_int q"
  by (simp add: ucast_down_wi is_down)

lemma sint_lt32: "sint (l :: 32 word) < 2147483648"
  using sint_lt [of l] by simp

lemma sint_ge32: "- 2147483648 \<le> sint (l :: 32 word)"
  using sint_ge [of l] by simp

lemma sdiv_nonneg_pos: "0 \<le> a \<Longrightarrow> 0 < b \<Longrightarrow> a sdiv b = a div (b::int)"
  by (simp add: signed_divide_int_def sgn_if)

lemma quo_bound:
  assumes "0 < (l::int)" "(t + l - 1) div l < c"
  shows "t + l - 1 < c * l"
proof -
  define x where "x = t + l - 1"
  have m: "x mod l < l" using assms(1) by simp
  have e: "l * (x div l) + x mod l = x" by (rule mult_div_mod_eq)
  have "x div l + 1 \<le> c" using assms(2) by (simp add: x_def)
  then have "l * (x div l + 1) \<le> l * c"
    using assms(1) by (simp only: mult_le_cancel_left_pos)
  moreover have "l * (x div l + 1) = l * (x div l) + l" by (simp add: algebra_simps)
  ultimately have "x < l * c" using m e by linarith
  then show ?thesis by (simp add: x_def mult.commute)
qed

lemma GetTotalPages_sint:
  fixes r :: "'a PagedResult" and limit :: "32 word"
  assumes t: "0 \<le> sint (Total r)" and l: "0 < sint limit"
    and c: "(sint (Total r) + sint limit - 1) div sint limit < 2147483648"
  shows "sint (GetTotalPages (Some r) limit) = (sint (Total r) + sint limit - 1) div sint limit"
proof -
  define t where "t = sint (Total r)"
  define l where "l = sint limit"
  define q where "q = (t + l - 1) div l"
  have t0: "0 \<le> t" and l0: "0 < l" and qc: "q < 2147483648"
    using assms by (simp_all add: t_def l_def q_def)
  have lb: "l < 2147483648" unfolding l_def by (rule sint_lt32)
  have "t + l - 1 < 2147483648 * l"
    using quo_bound [OF l0, of t 2147483648] qc by (simp add: q_def)
  also have "\<dots> < 2147483648 * 2147483648" using lb by simp
  finally have s: "t + l - 1 < 4611686018427387904" by simp
  have s0: "0 \<le> t + l - 1" using t0 l0 by simp
  have "signed_take_bit 63 (t + l) = t + l"
    by (rule signed_take_bit_int_eq_self) (use s s0 in simp_all)
  then have a: "sint (Total r + scast limit) = t + l"
    by (simp add: sint_word_add sint_scast_32_64 t_def l_def)
  have "signed_take_bit 63 (t + l - 1) = t + l - 1"
    by (rule signed_take_bit_int_eq_self) (use s s0 in simp_all)
  then have b: "sint (Total r + scast limit - 1) = t + l - 1"
    by (simp add: sint_word_diff a)
  have q0: "0 \<le> q" unfolding q_def using s0 l0 by (simp add: pos_imp_zdiv_nonneg_iff)
  have sd: "(t + l - 1) sdiv l = q"
    unfolding q_def using s0 l0 by (rule sdiv_nonneg_pos)
  have "\<not> sint limit \<le> 0" using l0 by (simp add: l_def)
  then have g: "GetTotalPages (Some r) limit = word_of_int q"
    by (simp add: GetTotalPages_def go_quo_def b sint_scast_32_64 ucast_64_32_of_int
        sd l_def [symmetric])
  have "signed_take_bit 31 q = q"
    by (rule signed_take_bit_int_eq_self) (use q0 qc in simp_all)
  then have "sint (word_of_int q :: 32 word) = q"
    by (simp add: sint_sbintrunc')
  then show ?thesis
    by (simp add: g q_def t_def l_def)
qed

text \<open>
  C9, as stated, at total = 2^32 and limit = 1: the quotient 2^32 does not fit the
  \<^verbatim>\<open>int32\<close> result, the conversion keeps its low 32 bits and the method returns 0, not
  the ceiling 4294967296.
\<close>

theorem GetTotalPages_truncates:
  "sint (GetTotalPages (Some \<lparr>Items = (), Total = 4294967296\<rparr>) 1) = 0
   \<and> \<lceil>real_of_int (sint (4294967296 :: 64 word)) / real_of_int (sint (1 :: 32 word))\<rceil> = 4294967296"
  by (simp add: GetTotalPages_def go_quo_def)

text \<open>
  C9, amended: for a paged result with total \<ge> 0 and a limit > 0 whose quotient
  ceil(total / limit) fits \<^verbatim>\<open>int32\<close> (is at most 2^31 - 1), GetTotalPages(limit) is
  ceil(total / limit); for every limit \<le> 0 it is 0; it is 5 for total = 95 and limit = 20,
  0 for total = 0 and limit = 20, and 0 for total = 1 and limit = 0.
\<close>

theorem GetTotalPages_ceiling:
  fixes r :: "'a PagedResult" and limit :: "32 word"
  shows "(0 \<le> sint (Total r) \<and> 0 < sint limit
            \<and> \<lceil>real_of_int (sint (Total r)) / real_of_int (sint limit)\<rceil> \<le> 2147483647
          \<longrightarrow> sint (GetTotalPages (Some r) limit)
                = \<lceil>real_of_int (sint (Total r)) / real_of_int (sint limit)\<rceil>)
       \<and> (sint limit \<le> 0 \<longrightarrow> GetTotalPages (Some r) limit = 0)
       \<and> GetTotalPages (Some \<lparr>Items = items, Total = 95\<rparr>) 20 = 5
       \<and> GetTotalPages (Some \<lparr>Items = items, Total = 0\<rparr>) 20 = 0
       \<and> GetTotalPages (Some \<lparr>Items = items, Total = 1\<rparr>) 0 = 0"
proof (intro conjI impI)
  assume h: "0 \<le> sint (Total r) \<and> 0 < sint limit
      \<and> \<lceil>real_of_int (sint (Total r)) / real_of_int (sint limit)\<rceil> \<le> 2147483647"
  then have l: "0 < sint limit" by simp
  have c: "\<lceil>real_of_int (sint (Total r)) / real_of_int (sint limit)\<rceil>
      = (sint (Total r) + sint limit - 1) div sint limit"
    using l by (rule ceiling_divide_round_up)
  have "(sint (Total r) + sint limit - 1) div sint limit < 2147483648"
    using h unfolding c by simp
  then have "sint (GetTotalPages (Some r) limit) = (sint (Total r) + sint limit - 1) div sint limit"
    using h by (intro GetTotalPages_sint) simp_all
  then show "sint (GetTotalPages (Some r) limit)
      = \<lceil>real_of_int (sint (Total r)) / real_of_int (sint limit)\<rceil>"
    by (simp only: c)
next
  assume "sint limit \<le> 0"
  then show "GetTotalPages (Some r) limit = 0" by (simp add: GetTotalPages_def)
next
  show "GetTotalPages (Some \<lparr>Items = items, Total = 95\<rparr>) 20 = 5"
    by (simp add: GetTotalPages_def go_quo_def)
next
  show "GetTotalPages (Some \<lparr>Items = items, Total = 0\<rparr>) 20 = 0"
    by (simp add: GetTotalPages_def go_quo_def)
next
  show "GetTotalPages (Some \<lparr>Items = items, Total = 1\<rparr>) 0 = 0"
    by (simp add: GetTotalPages_def)
qed

theorem GetTotalPages_ceiling_witness:
  "(0 \<le> sint (Total \<lparr>Items = (), Total = 95\<rparr>) \<and> 0 < sint (20 :: 32 word)
      \<and> \<lceil>real_of_int (sint (Total \<lparr>Items = (), Total = 95\<rparr>)) / real_of_int (sint (20 :: 32 word))\<rceil>
          \<le> 2147483647)
   \<and> sint (GetTotalPages (Some \<lparr>Items = (), Total = 95\<rparr>) 20) = 5
   \<and> sint (0 :: 32 word) \<le> 0
   \<and> GetTotalPages (Some \<lparr>Items = (), Total = 95\<rparr>) 0 = 0"
  using GetTotalPages_ceiling [of "\<lparr>Items = (), Total = 95\<rparr>" 20 "()"]
    GetTotalPages_ceiling [of "\<lparr>Items = (), Total = 95\<rparr>" 0 "()"]
  by simp

lemma sint_stb32: "signed_take_bit 31 (sint (l :: 32 word)) = sint l"
  by (rule signed_take_bit_int_eq_self) (use sint_ge32 [of l] sint_lt32 [of l] in simp_all)

lemma sint_pred_mult:
  "sint ((p - 1) * l :: 32 word) = signed_take_bit 31 ((sint p - 1) * sint l)"
proof -
  have "sint ((p - 1) * l) = signed_take_bit 31 (sint (p - 1) * sint l)"
    by (simp add: sint_word_mult)
  also have "\<dots> = signed_take_bit 31 (signed_take_bit 31 (sint p - 1) * signed_take_bit 31 (sint l))"
    by (simp add: sint_word_diff sint_stb32)
  also have "\<dots> = signed_take_bit 31 ((sint p - 1) * sint l)"
    by (rule signed_take_bit_mult)
  finally show ?thesis .
qed

text \<open>
  C8: at page = 65537 and limit = 65536 the pagination scope does not apply the offset
  (page - 1) * limit = 4294967296. The product is computed on the 32-bit integers of the
  request, before the conversion to \<^verbatim>\<open>int\<close>, and wraps to 0: the scope calls
  \<^verbatim>\<open>Offset\<close> with 0, the offset of the first page. Limit and order clause are as
  requested.
\<close>

theorem WithPaginationScope_offset_wraps:
  "WithPaginationScope
      (Some \<lparr>Page = 65537, Limit = 65536, Sort = ''name'', Direction = SORT_DIRECTION_ASC\<rparr>) []
     = [LimitClause 65536, OffsetClause 0, OrderClause ''name asc'']
   \<and> (sint (65537 :: 32 word) - 1) * sint (65536 :: 32 word) = 4294967296"
  by (simp add: WithPaginationScope_def GetPage_def GetLimit_def GetSort_def GetDirection_def
      db_Limit_def db_Offset_def db_Order_def)

text \<open>
  Where the product fits, the scope is what C8 says: with effective page 1 when page \<le> 0,
  effective limit 20 when limit \<le> 0, sort field \<^verbatim>\<open>created_at\<close> when empty and direction
  \<^verbatim>\<open>desc\<close> unless ascending is requested, it calls \<^verbatim>\<open>Limit\<close> with the limit,
  \<^verbatim>\<open>Offset\<close> with (page - 1) * limit and \<^verbatim>\<open>Order\<close> with "sort direction", in this
  order, whenever (page - 1) * limit is below 2^31.
\<close>

lemma WithPaginationScope_in_range:
  fixes pagination :: "PageRequest option"
  defines "page \<equiv> (if sint (GetPage pagination) \<le> 0 then 1 else sint (GetPage pagination))"
    and "limit \<equiv> (if sint (GetLimit pagination) \<le> 0 then 20 else sint (GetLimit pagination))"
    and "srt \<equiv> (if GetSort pagination = [] then ''created_at'' else GetSort pagination)"
    and "ord \<equiv> (if GetDirection pagination = SORT_DIRECTION_ASC then ''asc'' else ''desc'')"
  assumes b: "(page - 1) * limit < 2147483648"
  shows "WithPaginationScope pagination db
           = db @ [LimitClause limit, OffsetClause ((page - 1) * limit),
                   OrderClause (srt @ '' '' @ ord)]"
proof -
  define p where "p = (if sint (GetPage pagination) \<le> 0 then 1 else GetPage pagination)"
  define l where "l = (if sint (GetLimit pagination) \<le> 0 then 20 else GetLimit pagination)"
  have sp: "sint p = page" by (simp add: p_def page_def)
  have sl: "sint l = limit" by (simp add: l_def limit_def)
  have o: "(case GetDirection pagination of SORT_DIRECTION_ASC \<Rightarrow> ''asc''
            | SORT_DIRECTION_DESC \<Rightarrow> ''desc'' | _ \<Rightarrow> ''desc'') = ord"
    by (simp add: ord_def split: SortDirection.splits)
  have w: "WithPaginationScope pagination db
      = db @ [LimitClause (sint l), OffsetClause (sint ((p - 1) * l)), OrderClause (srt @ '' '' @ ord)]"
    by (simp add: WithPaginationScope_def db_Limit_def db_Offset_def db_Order_def Let_def
        p_def l_def srt_def o)
  have "signed_take_bit 31 ((page - 1) * limit) = (page - 1) * limit"
  proof (rule signed_take_bit_int_eq_self)
    have "0 \<le> page - 1" "0 \<le> limit" by (simp_all add: page_def limit_def)
    then have "0 \<le> (page - 1) * limit" by (rule mult_nonneg_nonneg)
    then show "- (2 ^ 31) \<le> (page - 1) * limit" by simp
    show "(page - 1) * limit < 2 ^ 31" using b by simp
  qed
  then have "sint ((p - 1) * l) = (page - 1) * limit"
    by (simp add: sint_pred_mult sp sl)
  then show ?thesis by (simp add: w sl)
qed

lemma WithPaginationScope_defaults:
  "WithPaginationScope
      (Some \<lparr>Page = 0, Limit = - 5, Sort = [], Direction = SORT_DIRECTION_UNSPECIFIED\<rparr>) []
     = [LimitClause 20, OffsetClause 0, OrderClause ''created_at desc'']"
  "WithPaginationScope None [] = [LimitClause 20, OffsetClause 0, OrderClause ''created_at desc'']"
  "WithPaginationScope
      (Some \<lparr>Page = 3, Limit = 10, Sort = ''name'', Direction = SORT_DIRECTION_ASC\<rparr>) []
     = [LimitClause 10, OffsetClause 20, OrderClause ''name asc'']"
  by (simp_all add: WithPaginationScope_def GetPage_def GetLimit_def GetSort_def GetDirection_def
      db_Limit_def db_Offset_def db_Order_def)

section \<open>Properties of the tenant and token interceptors\<close>

lemma of_char_to_lower:
  "of_char (to_lower c) = (if IsUpper c then of_char c + 32 else (of_char c :: nat))"
  by (cases c) (auto simp add: to_lower_def IsUpper_def)

lemma CanonicalMIMEHeaderKey_XTenantKey: "CanonicalMIMEHeaderKey XTenantKey = ''X-Tenant-Id''"
  by (simp add: CanonicalMIMEHeaderKey_def XTenantKey_def to_upper_def to_lower_def
      IsLower_def IsUpper_def)

lemma Header_Get_XTenantKey:
  "Header_Get hdr XTenantKey =
     (case hdr ''X-Tenant-Id'' of None \<Rightarrow> [] | Some [] \<Rightarrow> [] | Some (v # vs) \<Rightarrow> v)"
  by (simp add: Header_Get_def CanonicalMIMEHeaderKey_XTenantKey)

text \<open>
  C1: when the tenant header is absent, has no value or has the empty string as its first
  value, the tenant interceptor returns a nil response and \<^verbatim>\<open>ErrMissingTenantHeader\<close> in
  the state it was called in, whatever the next handler is: the handler is not invoked. When
  the first value of the header is a non-empty tenant id, the interceptor returns what the
  next handler returns on the same request and the context extended with the tenant id under
  \<^verbatim>\<open>XTenantKey\<close>, where \<^verbatim>\<open>ctx.Value(XTenantKey)\<close> finds it.
\<close>

theorem UnaryTenantInterceptor_tenant:
  "(Header req ''X-Tenant-Id'' = None \<or> Header req ''X-Tenant-Id'' = Some []
      \<or> (\<exists>vs. Header req ''X-Tenant-Id'' = Some ([] # vs))
    \<longrightarrow> UnaryTenantInterceptor next ctx req s = (Inr (None, Some ErrMissingTenantHeader), s))
   \<and> (\<forall>tenantID vs. Header req ''X-Tenant-Id'' = Some (tenantID # vs) \<and> tenantID \<noteq> []
        \<longrightarrow> UnaryTenantInterceptor next ctx req s
              = next ((StringKey XTenantKey, StringValue tenantID) # ctx) req s
          \<and> ctx_Value ((StringKey XTenantKey, StringValue tenantID) # ctx) (StringKey XTenantKey)
              = Some (StringValue tenantID))"
  by (auto simp add: UnaryTenantInterceptor_def Header_Get_XTenantKey context_WithValue_def
      ctx_Value_def)

theorem UnaryTenantInterceptor_tenant_witness:
  "UnaryTenantInterceptor (\<lambda>ctx req s. (Inr (Some (VString ''handled''), None), Suc s)) []
      \<lparr>Procedure = ''/shop.v1.Orders/List'', Header = Map.empty, Self = 0\<rparr> (0::nat)
     = (Inr (None, Some ErrMissingTenantHeader), 0)
   \<and> UnaryTenantInterceptor (\<lambda>ctx req s. (Inr (Some (VString ''handled''), None), ctx # s)) []
      \<lparr>Procedure = ''/shop.v1.Orders/List'', Header = [''X-Tenant-Id'' \<mapsto> [''acme'']],
        Self = 0\<rparr> []
     = (Inr (Some (VString ''handled''), None), [[(StringKey ''x-tenant-id'', StringValue ''acme'')]])"
  using UnaryTenantInterceptor_tenant
      [of "\<lparr>Procedure = ''/shop.v1.Orders/List'', Header = Map.empty, Self = 0\<rparr>"
          "\<lambda>ctx req s. (Inr (Some (VString ''handled''), None), Suc s)" "[]" "0::nat"]
    UnaryTenantInterceptor_tenant
      [of "\<lparr>Procedure = ''/shop.v1.Orders/List'', Header = [''X-Tenant-Id'' \<mapsto> [''acme'']],
            Self = 0\<rparr>"
          "\<lambda>ctx req s. (Inr (Some (VString ''handled''), None), ctx # s)" "[]" "[]"]
  by (simp add: XTenantKey_def)

text \<open>
  C2: on a route of the exempt list the token interceptor is the next handler, on the same
  context, request and state, for every authenticator: no token is extracted and none is
  verified, whatever the headers of the request are.
\<close>

theorem UnaryTokenInterceptor_exempt:
  "Procedure req \<in> set routes
   \<Longrightarrow> UnaryTokenInterceptor authenticator routes next ctx req s = next ctx req s"
  by (simp add: UnaryTokenInterceptor_def)

theorem UnaryTokenInterceptor_exempt_witness:
  "Procedure \<lparr>Procedure = ''/grpc.health.v1.Health/Check'', Header = Map.empty, Self = 0\<rparr>
     \<in> set [''/grpc.health.v1.Health/Check'']
   \<and> UnaryTokenInterceptor
        \<lparr>ExtractHeaderToken = (\<lambda>req s. (([], Some (errors_New ''no authorization header'')), Suc s)),
          Verify = (\<lambda>ctx token s. ((None :: unit option, Some (errors_New ''not verified'')), Suc s)),
          Claims = (\<lambda>t c. (c, None))\<rparr>
        [''/grpc.health.v1.Health/Check'']
        (\<lambda>ctx req s. (Inr (Some (VString ''SERVING''), None), s)) []
        \<lparr>Procedure = ''/grpc.health.v1.Health/Check'', Header = Map.empty, Self = 0\<rparr> (0::nat)
     = (Inr (Some (VString ''SERVING''), None), 0)"
  using UnaryTokenInterceptor_exempt
      [of "\<lparr>Procedure = ''/grpc.health.v1.Health/Check'', Header = Map.empty, Self = 0\<rparr>"
          "[''/grpc.health.v1.Health/Check'']"
          "\<lparr>ExtractHeaderToken = (\<lambda>req s. (([], Some (errors_New ''no authorization header'')), Suc s)),
            Verify = (\<lambda>ctx token s. ((None :: unit option, Some (errors_New ''not verified'')), Suc s)),
            Claims = (\<lambda>t c. (c, None))\<rparr>"
          "\<lambda>ctx req s. (Inr (Some (VString ''SERVING''), None), s)" "[]" "0::nat"]
  by simp

text \<open>
  C3: on a route that is not exempt, when the extraction of the header token returns an
  error, the token interceptor returns a nil response and a connect error of code
  unauthenticated built from the message "missing or invalid token" and that error, in the
  state the extraction left, whatever the verifier, the claims decoder and the next handler
  are: neither the verifier nor the handler is invoked.
\<close>

theorem UnaryTokenInterceptor_extraction_fails:
  assumes "Procedure req \<notin> set routes"
    and "ExtractHeaderToken authenticator req s = ((token, Some err), s1)"
  shows "UnaryTokenInterceptor (authenticator\<lparr>Verify := verify, Claims := decode\<rparr>) routes next ctx req s
           = (Inr (None, Some (connect_NewError CodeUnauthenticated
                                 (fmt_Errorf ''missing or invalid token: %v'' err))), s1)
         \<and> Code (connect_NewError CodeUnauthenticated
                    (fmt_Errorf ''missing or invalid token: %v'' err)) = Some CodeUnauthenticated"
  using assms by (simp add: UnaryTokenInterceptor_def)

theorem UnaryTokenInterceptor_extraction_fails_witness:
  "Procedure \<lparr>Procedure = ''/shop.v1.Orders/List'', Header = Map.empty, Self = 0\<rparr>
     \<notin> set [''/grpc.health.v1.Health/Check'']
   \<and> UnaryTokenInterceptor
        \<lparr>ExtractHeaderToken = (\<lambda>req s. (([], Some (errors_New ''no authorization header'')), s @ [''extract''])),
          Verify = (\<lambda>ctx token s. ((Some (), None), s @ [''verify''])),
          Claims = (\<lambda>t c. (c, None))\<rparr>
        [''/grpc.health.v1.Health/Check'']
        (\<lambda>ctx req s. (Inr (Some (VString ''handled''), None), s @ [''handler''])) []
        \<lparr>Procedure = ''/shop.v1.Orders/List'', Header = Map.empty, Self = 0\<rparr> []
     = (Inr (None, Some (connect_NewError CodeUnauthenticated
                           (fmt_Errorf ''missing or invalid token: %v''
                              (errors_New ''no authorization header'')))), [''extract''])"
  using UnaryTokenInterceptor_extraction_fails
      [where req = "\<lparr>Procedure = ''/shop.v1.Orders/List'', Header = Map.empty, Self = 0\<rparr>"
         and routes = "[''/grpc.health.v1.Health/Check'']"
         and authenticator =
          "\<lparr>ExtractHeaderToken = (\<lambda>req s. (([], Some (errors_New ''no authorization header'')), s @ [''extract''])),
            Verify = (\<lambda>ctx token s. ((Some (), None), s @ [''verify''])),
            Claims = (\<lambda>t c. (c, None))\<rparr>"
         and s = "[]" and token = "[]" and err = "errors_New ''no authorization header''"
         and ?s1.0 = "[''extract'']"
         and verify = "\<lambda>ctx token s. ((Some (), None), s @ [''verify''])"
         and decode = "\<lambda>t c. (c, None)"
         and ?next = "\<lambda>ctx req s. (Inr (Some (VString ''handled''), None), s @ [''handler''])"
         and ctx = "[]"]
  by simp

lemma UnaryTokenInterceptor_claims_fail:
  assumes "Procedure req \<notin> set routes"
    and "ExtractHeaderToken authenticator req s = ((token, None), s1)"
    and "Verify authenticator ctx token s1 = ((Some idToken, None), s2)"
    and "Claims authenticator idToken new_UserAuthClaims = (claims, Some err)"
  shows "UnaryTokenInterceptor authenticator routes next ctx req s
           = (Inr (None, Some (connect_NewError CodeInternal
                                 (fmt_Errorf ''failed to parse token claims: %v'' err))), s2)"
  using assms by (simp add: UnaryTokenInterceptor_def)

lemma UnaryTokenInterceptor_attaches_claims:
  assumes "Procedure req \<notin> set routes"
    and "ExtractHeaderToken authenticator req s = ((token, None), s1)"
    and "Verify authenticator ctx token s1 = ((Some idToken, None), s2)"
    and "Claims authenticator idToken new_UserAuthClaims = (claims, None)"
  shows "UnaryTokenInterceptor authenticator routes next ctx req s
           = next ((StringKey ContextKeyUser, UserAuthClaimsPtr (Some claims)) # ctx) req s2"
    and "GetUserClaims ((StringKey ContextKeyUser, UserAuthClaimsPtr (Some claims)) # ctx)
           = Inr (Some claims)"
  using assms
  by (simp_all add: UnaryTokenInterceptor_def context_WithValue_def GetUserClaims_def ctx_Value_def)

text \<open>
  C7: the package declares the error of this kind, \<^verbatim>\<open>ErrFailedParsingTokenClaims\<close>, with
  the code invalid-argument, not internal, while the token interceptor, when the claims of a
  verified token cannot be decoded, returns an error of its own with the code internal: here
  on a route that is not exempt, with a token that is extracted and verified and claims that
  fail to decode.
\<close>

theorem ErrFailedParsingTokenClaims_code:
  "Code ErrFailedParsingTokenClaims = Some CodeInvalidArgument
   \<and> Code ErrFailedParsingTokenClaims \<noteq> Some CodeInternal
   \<and> UnaryTokenInterceptor
        \<lparr>ExtractHeaderToken = (\<lambda>req s. ((''eyJhbGciOi'', None), s)),
          Verify = (\<lambda>ctx token s. ((Some (), None), s)),
          Claims = (\<lambda>t c. (c, Some (errors_New ''unexpected end of JSON input'')))\<rparr>
        []
        (\<lambda>ctx req s. (Inr (Some (VString ''handled''), None), Suc s)) []
        \<lparr>Procedure = ''/shop.v1.Orders/List'', Header = Map.empty, Self = 0\<rparr> (0::nat)
     = (Inr (None, Some (connect_NewError CodeInternal
                           (fmt_Errorf ''failed to parse token claims: %v''
                              (errors_New ''unexpected end of JSON input'')))), 0)"
  by (simp add: ErrFailedParsingTokenClaims_def UnaryTokenInterceptor_def)

text \<open>
  C10: \<^verbatim>\<open>GetUserClaims\<close> returns the pointer stored under the user-claims key when the
  value there is a \<^verbatim>\<open>*UserAuthClaims\<close>; for every context with no value under the key, or
  with a value of another type, it panics.
\<close>

theorem GetUserClaims_panics:
  "(\<forall>p. ctx_Value ctx (StringKey ContextKeyUser) = Some (UserAuthClaimsPtr p)
        \<longrightarrow> GetUserClaims ctx = Inr p)
   \<and> ((\<nexists>p. ctx_Value ctx (StringKey ContextKeyUser) = Some (UserAuthClaimsPtr p))
        \<longrightarrow> (\<exists>m. GetUserClaims ctx = Inl (Panic m)))"
  by (auto simp add: GetUserClaims_def split: option.splits ctx_value.splits)

theorem GetUserClaims_panics_witness:
  "GetUserClaims [(StringKey ''UserClaimsKey'', UserAuthClaimsPtr (Some new_UserAuthClaims))]
     = Inr (Some new_UserAuthClaims)
   \<and> (\<exists>m. GetUserClaims [(StringKey ''x-tenant-id'', StringValue ''acme'')] = Inl (Panic m))
   \<and> (\<exists>m. GetUserClaims [(StringKey ''UserClaimsKey'', StringValue ''bob'')] = Inl (Panic m))"
  using GetUserClaims_panics
      [of "[(StringKey ''UserClaimsKey'', UserAuthClaimsPtr (Some new_UserAuthClaims))]"]
    GetUserClaims_panics [of "[(StringKey ''x-tenant-id'', StringValue ''acme'')]"]
    GetUserClaims_panics [of "[(StringKey ''UserClaimsKey'', StringValue ''bob'')]"]
  by (simp add: ctx_Value_def ContextKeyUser_def)

section \<open>Properties of the sanitizer\<close>

lemmas case_simps = ToLower_def to_lower_def IsUpper_def IsExported_def CanInterface_def

lemma redacted_field_pair:
  "redacted_field sens (name, v) =
     (name,
      if \<not> IsExported name then Zero v
      else if ToLower name \<in> sens then
        (if Kind (TypeOf v) = reflect_String then VString ''[REDACTED]'' else Zero v)
      else v)"
  by (simp add: redacted_field_def)

lemma TypeOf_Zero: "TypeOf (Zero v) = TypeOf v"
  by (cases v) simp_all

lemma Zero_fields_map: "Zero_fields fs = map (\<lambda>f. (fst f, Zero (snd f))) fs"
  by (induction fs) auto

lemma Kind_struct_iff: "Kind (TypeOf v) = reflect_Struct \<longleftrightarrow> (\<exists>n fs. v = VStruct n fs)"
  by (cases v) simp_all

lemma reflect_Set_same: "TypeOf x = t \<Longrightarrow> reflect_Set h a i t x = Inr (set_field h a i x)"
  by (simp add: reflect_Set_def AssignableTo_def)

lemma reflect_Set_ptr_struct:
  "reflect_Set h a i (TStruct n) (VPtr t p)
     = Inl (Panic ''reflect.Set: value is not assignable to the type of the field'')"
  by (simp add: reflect_Set_def AssignableTo_def)

lemma sanitize_struct_result:
  "sanitize_struct sens h n fs = Inr (x, h') \<Longrightarrow> x = VPtr (TStruct n) (Some (length h))"
  by (auto simp add: reflect_New_def split: sum.splits)

lemma sanitize_fields_nested_struct_panics:
  assumes "\<exists>name n' fs'. (name, VStruct n' fs') \<in> set fs \<and> CanInterface name
              \<and> ToLower name \<notin> sens"
  shows "\<exists>p. sanitize_fields sens h a i fs = Inl p"
  using assms
proof (induction fs arbitrary: h i)
  case Nil
  then show ?case by simp
next
  case (Cons f rest)
  obtain name v where f: "f = (name, v)" by (cases f)
  show ?case
  proof (cases "CanInterface name \<and> ToLower name \<notin> sens \<and> (\<exists>n' fs'. v = VStruct n' fs')")
    case True
    then obtain n' fs' where v: "v = VStruct n' fs'" by blast
    show ?thesis
    proof (cases "sanitize_struct sens h n' fs'")
      case (Inl p)
      then show ?thesis using True f v by simp
    next
      case (Inr r)
      obtain x h' where r: "r = (x, h')" by (cases r)
      have "x = VPtr (TStruct n') (Some (length h))"
        using Inr r by (simp add: sanitize_struct_result)
      then show ?thesis using True f v Inr r by (simp add: reflect_Set_ptr_struct)
    qed
  next
    case False
    then have rest: "\<exists>name n' fs'. (name, VStruct n' fs') \<in> set rest \<and> CanInterface name
              \<and> ToLower name \<notin> sens"
      using Cons.prems f by auto
    note ih = Cons.IH [OF rest]
    show ?thesis
    proof (cases "CanInterface name")
      case c: False
      then show ?thesis using f ih by simp
    next
      case c: True
      show ?thesis
      proof (cases "ToLower name \<in> sens")
        case True
        then show ?thesis using f c ih by (simp add: reflect_Set_same TypeOf_Zero)
      next
        case s: False
        then have "\<nexists>n' fs'. v = VStruct n' fs'" using False c by simp
        then show ?thesis using f c s ih
          by (cases v) (simp_all add: reflect_Set_same)
      qed
    qed
  qed
qed


lemma set_field_struct:
  "a < length h \<Longrightarrow> h ! a = VStruct n cfs
   \<Longrightarrow> set_field h a i x = h[a := VStruct n (cfs[i := (fst (cfs ! i), x)])]"
  by (simp add: set_field_def)

lemma sanitize_fields_flat:
  assumes "a < length h" and "h ! a = VStruct n cfs"
    and "drop i cfs = Zero_fields fs"
    and "\<forall>f \<in> set fs. CanInterface (fst f) \<and> ToLower (fst f) \<notin> sens
            \<longrightarrow> Kind (TypeOf (snd f)) \<noteq> reflect_Struct"
  shows "sanitize_fields sens h a i fs
           = Inr (h[a := VStruct n (take i cfs @ map (redacted_field sens) fs)])"
  using assms
proof (induction fs arbitrary: h i cfs)
  case Nil
  then have "i \<ge> length cfs" by simp
  then have "take i cfs = cfs" by simp
  moreover have "h[a := h ! a] = h" by (rule list_update_id)
  ultimately show ?case using Nil.prems(2) by simp
next
  case (Cons f rest)
  obtain name v where f: "f = (name, v)" by (cases f)
  have d: "drop i cfs = (name, Zero v) # Zero_fields rest"
    using Cons.prems(3) f by simp
  then have il: "i < length cfs" by (cases "i < length cfs") simp_all
  have ci: "cfs ! i = (name, Zero v)"
    using d il by (metis Cons_nth_drop_Suc list.inject)
  have dr: "drop (Suc i) cfs = Zero_fields rest"
    using d il by (metis Cons_nth_drop_Suc list.inject)
  have rest: "\<forall>f \<in> set rest. CanInterface (fst f) \<and> ToLower (fst f) \<notin> sens
            \<longrightarrow> Kind (TypeOf (snd f)) \<noteq> reflect_Struct"
    using Cons.prems(4) by simp
  have tk: "take (Suc i) cfs = take i cfs @ [(name, Zero v)]"
    using il ci by (simp add: take_Suc_conv_app_nth)
  have step: "sanitize_fields sens (set_field h a i x) a (Suc i) rest
        = Inr (h[a := VStruct n (take i cfs @ (name, x) # map (redacted_field sens) rest)])" for x
  proof -
    let ?cfs = "cfs[i := (name, x)]"
    let ?h = "h[a := VStruct n ?cfs]"
    have sf: "set_field h a i x = ?h"
      using Cons.prems(1,2) ci by (simp add: set_field_struct)
    have "sanitize_fields sens ?h a (Suc i) rest
        = Inr (?h[a := VStruct n (take (Suc i) ?cfs @ map (redacted_field sens) rest)])"
    proof (rule Cons.IH)
      show "a < length ?h" using Cons.prems(1) by simp
      show "?h ! a = VStruct n ?cfs" using Cons.prems(1) by simp
      show "drop (Suc i) ?cfs = Zero_fields rest" using dr by simp
      show "\<forall>f \<in> set rest. CanInterface (fst f) \<and> ToLower (fst f) \<notin> sens
            \<longrightarrow> Kind (TypeOf (snd f)) \<noteq> reflect_Struct" by (rule rest)
    qed
    moreover have "take (Suc i) ?cfs = take i cfs @ [(name, x)]"
      using il by (simp add: take_Suc_conv_app_nth)
    ultimately show ?thesis by (simp add: sf)
  qed
  show ?case
  proof (cases "CanInterface name")
    case False
    have "sanitize_fields sens h a (Suc i) rest
        = Inr (h[a := VStruct n (take (Suc i) cfs @ map (redacted_field sens) rest)])"
      using Cons.prems(1,2) dr rest by (rule Cons.IH)
    then show ?thesis using False f tk
      by (simp add: redacted_field_pair CanInterface_def)
  next
    case c: True
    show ?thesis
    proof (cases "ToLower name \<in> sens")
      case True
      then show ?thesis using f c step
        by (simp add: redacted_field_pair CanInterface_def reflect_Set_same TypeOf_Zero)
    next
      case s: False
      then have "Kind (TypeOf v) \<noteq> reflect_Struct" using Cons.prems(4) f c by simp
      then show ?thesis using f c s step
        by (cases v) (simp_all add: redacted_field_pair CanInterface_def reflect_Set_same)
    qed
  qed
qed

lemma sanitize_struct_flat:
  assumes "\<forall>f \<in> set fs. CanInterface (fst f) \<and> ToLower (fst f) \<notin> sens
            \<longrightarrow> Kind (TypeOf (snd f)) \<noteq> reflect_Struct"
  shows "sanitize_struct sens h n fs
           = Inr (VPtr (TStruct n) (Some (length h)), h @ [VStruct n (map (redacted_field sens) fs)])"
proof -
  let ?h1 = "h @ [VStruct n (Zero_fields fs)]"
  have "sanitize_fields sens ?h1 (length h) 0 fs
      = Inr (?h1[length h := VStruct n (take 0 (Zero_fields fs) @ map (redacted_field sens) fs)])"
    by (rule sanitize_fields_flat) (use assms in simp_all)
  then show ?thesis by (simp add: reflect_New_def)
qed


lemma sanitize_of_struct:
  "sanitize (Some (VStruct n fs)) sens h =
     (case sanitize_struct sens h n fs of
        Inl p \<Rightarrow> Inl p
      | Inr (copied, h') \<Rightarrow> Inr (Some copied, h'))"
  by (simp add: sanitize_def Elem_def)

lemma sanitize_passes_through:
  "sanitize None sens h = Inr (None, h)"
  "Elem h x = Inr rv \<Longrightarrow> Kind (TypeOf rv) \<noteq> reflect_Struct
     \<Longrightarrow> sanitize (Some x) sens h = Inr (Some x, h)"
  by (cases rv; simp add: sanitize_def)+

text \<open>
  C4, as stated, on a login request with the fields \<^verbatim>\<open>Username\<close>, \<^verbatim>\<open>Password\<close> and the
  unexported \<^verbatim>\<open>sizeCache\<close> = 7: the copy has the password redacted, but its sibling
  \<^verbatim>\<open>sizeCache\<close> is 0, not 7. The loop skips a field that is not exported
  (\<^verbatim>\<open>if !value.CanInterface() { continue }\<close>), which leaves the zero value in the copy.
\<close>

theorem sanitize_zeroes_unexported:
  "sanitizeRequest (Some (VPtr (TStruct ''LoginRequest'') (Some 0)))
      [VStruct ''LoginRequest'' [(''Username'', VString ''bob''), (''Password'', VString ''hunter2''),
                                 (''sizeCache'', VInt 7)]]
     = Inr (Some (VPtr (TStruct ''LoginRequest'') (Some 1)),
            [VStruct ''LoginRequest'' [(''Username'', VString ''bob''), (''Password'', VString ''hunter2''),
                                       (''sizeCache'', VInt 7)],
             VStruct ''LoginRequest'' [(''Username'', VString ''bob''), (''Password'', VString ''[REDACTED]''),
                                       (''sizeCache'', VInt 0)]])"
  by (simp add: sanitizeRequest_def sanitize_def Elem_def reflect_New_def reflect_Set_def
      AssignableTo_def set_field_def case_simps)

text \<open>
  C4, amended: for every struct input, a struct or a pointer to one, whose field names are
  of ASCII characters and that has no exported field of struct kind outside the sensitive
  set, the sanitizer returns a pointer to a new
  struct of the same type in which every exported field whose lower-cased name is in the
  sensitive set is "[REDACTED]" when it is a string (so an exported string field named
  password in any letter case is) and the zero value otherwise, every other exported field
  equals the field of the original, and every field that is not exported has its zero
  value. The new struct is in a new cell of the heap, and every cell the heap had, the
  original among them, is as it was.
\<close>

theorem sanitize_flat_struct:
  assumes "v = VStruct n fs \<or> (\<exists>t a. v = VPtr t (Some a) \<and> a < length h \<and> h ! a = VStruct n fs)"
    and "list_all (\<lambda>f. IsASCII (fst f)) fs"
    and "\<forall>f \<in> set fs. IsExported (fst f) \<and> ToLower (fst f) \<notin> sensitiveFields
            \<longrightarrow> Kind (TypeOf (snd f)) \<noteq> reflect_Struct"
  shows "sanitize (Some v) sensitiveFields h
           = Inr (Some (VPtr (TStruct n) (Some (length h))),
                  h @ [VStruct n (map (redacted_field sensitiveFields) fs)])"
proof -
  have e: "Elem h v = Inr (VStruct n fs)"
    using assms(1) by (auto simp add: Elem_def)
  have "sanitize_struct sensitiveFields h n fs
           = Inr (VPtr (TStruct n) (Some (length h)),
                  h @ [VStruct n (map (redacted_field sensitiveFields) fs)])"
    by (rule sanitize_struct_flat) (use assms(3) in \<open>simp add: CanInterface_def\<close>)
  then show ?thesis by (simp add: sanitize_def e)
qed

theorem sanitize_flat_struct_witness:
  "sanitizeRequest (Some (VPtr (TStruct ''LoginRequest'') (Some 0)))
      [VStruct ''LoginRequest'' [(''Username'', VString ''bob''), (''Password'', VString ''hunter2''),
                                 (''Attempts'', VInt 3)]]
     = Inr (Some (VPtr (TStruct ''LoginRequest'') (Some 1)),
            [VStruct ''LoginRequest'' [(''Username'', VString ''bob''), (''Password'', VString ''hunter2''),
                                       (''Attempts'', VInt 3)],
             VStruct ''LoginRequest'' [(''Username'', VString ''bob''), (''Password'', VString ''[REDACTED]''),
                                       (''Attempts'', VInt 3)]])"
  using sanitize_flat_struct
      [of "VPtr (TStruct ''LoginRequest'') (Some 0)" "''LoginRequest''"
          "[(''Username'', VString ''bob''), (''Password'', VString ''hunter2''), (''Attempts'', VInt 3)]"
          "[VStruct ''LoginRequest'' [(''Username'', VString ''bob''), (''Password'', VString ''hunter2''),
                                 (''Attempts'', VInt 3)]]"
          "{''password'', ''token'', ''secret'', ''apikey'', ''apiKey'', ''auth''}"]
  by (simp add: sanitizeRequest_def redacted_field_pair case_simps IsASCII_def)

text \<open>
  C5: on a struct with a nested struct field, here a request whose field \<^verbatim>\<open>Credentials\<close>
  is a struct with a \<^verbatim>\<open>Password\<close>, the sanitizer does not return a copy redacted at every
  depth: the recursive call returns a pointer to the sanitized struct, and
  \<^verbatim>\<open>copied.Field(i).Set\<close> panics on it, a pointer not being assignable to a field of
  struct type. Nil and a value that is not a struct pass through unchanged.
\<close>

theorem sanitize_nested_struct_panics:
  "sanitizeRequest
      (Some (VStruct ''CreateUserRequest''
               [(''Name'', VString ''bob''),
                (''Credentials'', VStruct ''Credentials'' [(''Password'', VString ''hunter2'')])])) []
     = Inl (Panic ''reflect.Set: value is not assignable to the type of the field'')
   \<and> sanitizeRequest None [] = Inr (None, [])
   \<and> sanitizeRequest (Some (VInt 42)) [] = Inr (Some (VInt 42), [])"
  by (simp add: sanitizeRequest_def sanitize_def Elem_def reflect_New_def reflect_Set_def
      AssignableTo_def set_field_def case_simps)

text \<open>
  The panic is not particular to the example: every struct with an exported field of struct
  kind, of an ASCII name outside the sensitive set, makes the sanitizer panic. And a call
  that returns leaves every cell of the heap as it was.
\<close>

lemma sanitize_panics_on_nested_struct:
  assumes "Elem h v = Inr (VStruct n fs)"
    and "(name, VStruct n' fs') \<in> set fs" and "IsASCII name"
    and "IsExported name" and "ToLower name \<notin> sens"
  shows "\<exists>p. sanitize (Some v) sens h = Inl p"
proof -
  have "\<exists>p. sanitize_fields sens (h @ [VStruct n (Zero_fields fs)]) (length h) 0 fs = Inl p"
    by (rule sanitize_fields_nested_struct_panics)
      (use assms(2,4,5) in \<open>auto simp add: CanInterface_def\<close>)
  then show ?thesis using assms(1) by (auto simp add: sanitize_def reflect_New_def)
qed

lemma sanitize_keeps_heap:
  assumes "sanitize v sens h = Inr (r, h')"
  shows "take (length h) h' = h"
proof (cases v)
  case None
  then show ?thesis using assms by (simp add: sanitize_def)
next
  case (Some x)
  show ?thesis
  proof (cases "Elem h x")
    case (Inl p)
    then show ?thesis using assms Some by (simp add: sanitize_def)
  next
    case (Inr rv)
    show ?thesis
    proof (cases "\<exists>n fs. rv = VStruct n fs")
      case False
      then have "Kind (TypeOf rv) \<noteq> reflect_Struct" by (simp add: Kind_struct_iff)
      then have "sanitize (Some x) sens h = Inr (Some x, h)"
        using Inr by (rule sanitize_passes_through(2) [rotated])
      then show ?thesis using assms Some by simp
    next
      case True
      then obtain n fs where rv: "rv = VStruct n fs" by blast
      show ?thesis
      proof (cases "\<forall>f \<in> set fs. CanInterface (fst f) \<and> ToLower (fst f) \<notin> sens
            \<longrightarrow> Kind (TypeOf (snd f)) \<noteq> reflect_Struct")
        case flat: True
        have "sanitize_struct sens h n fs
           = Inr (VPtr (TStruct n) (Some (length h)), h @ [VStruct n (map (redacted_field sens) fs)])"
          using flat by (rule sanitize_struct_flat)
        then have "sanitize (Some x) sens h
           = Inr (Some (VPtr (TStruct n) (Some (length h))),
                  h @ [VStruct n (map (redacted_field sens) fs)])"
          using Inr rv by (simp add: sanitize_def del: sanitize_struct.simps)
        then show ?thesis using assms Some by auto
      next
        case False
        then obtain f where f: "f \<in> set fs" "CanInterface (fst f)" "ToLower (fst f) \<notin> sens"
          "Kind (TypeOf (snd f)) = reflect_Struct" by blast
        then obtain n' fs' where "snd f = VStruct n' fs'" by (auto simp add: Kind_struct_iff)
        then have "(fst f, VStruct n' fs') \<in> set fs" using f(1) by (metis prod.collapse)
        then have "\<exists>name n' fs'. (name, VStruct n' fs') \<in> set fs \<and> CanInterface name
              \<and> ToLower name \<notin> sens"
          using f(2,3) by blast
        then have "\<exists>p. sanitize_fields sens (h @ [VStruct n (Zero_fields fs)]) (length h) 0 fs = Inl p"
          by (rule sanitize_fields_nested_struct_panics)
        then have "\<exists>p. sanitize (Some x) sens h = Inl p"
          using Inr rv by (auto simp add: sanitize_def reflect_New_def)
        then show ?thesis using assms Some by auto
      qed
    qed
  qed
qed

section \<open>Properties of the logging interceptor\<close>

lemma fields_of_connect_Request:
  assumes "connect_Request v"
  obtains msg_t msg spec peer hdr meth where
    "v = VStruct ''connect.Request''
           [(''Msg'', VPtr msg_t msg), (''spec'', spec), (''peer'', peer), (''header'', hdr),
            (''method'', meth)]"
proof -
  from assms obtain fs where v: "v = VStruct ''connect.Request'' fs"
    and n: "map fst fs = [''Msg'', ''spec'', ''peer'', ''header'', ''method'']"
    and k: "Kind (TypeOf (snd (fs ! 0))) = reflect_Ptr"
    by (cases v) (simp_all add: connect_Request_def)
  from n obtain m spec peer hdr meth where
    fs: "fs = [(''Msg'', m), (''spec'', spec), (''peer'', peer), (''header'', hdr),
               (''method'', meth)]"
    by (auto simp add: map_eq_Cons_conv)
  from k fs obtain msg_t msg where "m = VPtr msg_t msg" by (cases m) simp_all
  with v fs that show thesis by simp
qed

text \<open>
  The sanitizer never panics on the wrapper of a request: its one exported field is a
  pointer. It returns a copy of the wrapper with the same \<^verbatim>\<open>Msg\<close> pointer, the message
  itself is neither copied nor read.
\<close>

lemma sanitizeRequest_connect_Request:
  assumes "Self request < length h"
    and "h ! Self request
           = VStruct ''connect.Request''
               [(''Msg'', VPtr msg_t msg), (''spec'', spec), (''peer'', peer), (''header'', hdr),
                (''method'', meth)]"
  shows "sanitizeRequest (Some (request_value request)) h
           = Inr (Some (VPtr (TStruct ''connect.Request'') (Some (length h))),
                  h @ [VStruct ''connect.Request''
                         [(''Msg'', VPtr msg_t msg), (''spec'', Zero spec), (''peer'', Zero peer),
                          (''header'', Zero hdr), (''method'', Zero meth)]])"
proof -
  let ?fs = "[(''Msg'', VPtr msg_t msg), (''spec'', spec), (''peer'', peer), (''header'', hdr),
              (''method'', meth)]"
  let ?sens = "{''password'', ''token'', ''secret'', ''apikey'', ''apiKey'', ''auth''}"
  have "sanitize_struct ?sens h ''connect.Request'' ?fs
      = Inr (VPtr (TStruct ''connect.Request'') (Some (length h)),
             h @ [VStruct ''connect.Request'' (map (redacted_field ?sens) ?fs)])"
    by (rule sanitize_struct_flat) (simp add: case_simps)
  moreover have "map (redacted_field ?sens) ?fs
      = [(''Msg'', VPtr msg_t msg), (''spec'', Zero spec), (''peer'', Zero peer),
         (''header'', Zero hdr), (''method'', Zero meth)]"
    by (simp add: redacted_field_pair case_simps)
  moreover have "Elem h (request_value request) = Inr (VStruct ''connect.Request'' ?fs)"
    using assms by (simp add: Elem_def request_value_def)
  ultimately show ?thesis
    by (simp add: sanitizeRequest_def sanitize_def del: sanitize_struct.simps)
qed

lemma sanitizeRequest_wrapper_returns:
  assumes "Self request < length h" and "connect_Request (h ! Self request)"
  shows "\<exists>copied. sanitizeRequest (Some (request_value request)) h
           = Inr (Some (VPtr (TStruct ''connect.Request'') (Some (length h))), h @ [copied])"
proof -
  from assms(2) obtain msg_t msg spec peer hdr meth where
    "h ! Self request
       = VStruct ''connect.Request''
           [(''Msg'', VPtr msg_t msg), (''spec'', spec), (''peer'', peer), (''header'', hdr),
            (''method'', meth)]"
    by (rule fields_of_connect_Request)
  with assms(1) show ?thesis
    by (auto dest: sanitizeRequest_connect_Request)
qed

text \<open>
  When the sanitizer returns and the rest of the chain returns, the interceptor returns the
  response and the error of the chain as they are, after one more log entry: the error and
  the duration on failure, the response as it is and the duration on success.
\<close>

lemma LoggingUnaryInterceptor_returns:
  assumes "sanitizeRequest (Some (request_value request)) (heap w) = Inr (sanitizedReq, h)"
    and "next ctx request
           (loggR_Info ''gRPC request received''
              [zap_String ''method'' (Procedure request), zap_Any ''request'' sanitizedReq]
              (w\<lparr>heap := h\<rparr>)) = (Inr (resp, err), w2)"
  shows "LoggingUnaryInterceptor next ctx request w =
           (Inr (resp, err),
            (case err of
               Some e \<Rightarrow>
                 loggR_Error ''gRPC request failed''
                   [zap_String ''method'' (Procedure request), zap_Error e,
                    zap_Duration ''duration'' (clock w2 - clock w)] w2
             | None \<Rightarrow>
                 loggR_Info ''gRPC request completed''
                   [zap_String ''method'' (Procedure request), zap_Any ''response'' resp,
                    zap_Duration ''duration'' (clock w2 - clock w)] w2))"
  using assms by (simp add: LoggingUnaryInterceptor_def Let_def split: option.splits)

text \<open>
  C6: a login call through the wrappers of the connect library, that succeeds after 250 ns.
  The heap holds the request wrapper (cell 0), the login message with its password (cell 1),
  the response wrapper (cell 2) and the response message with its token (cell 3). The
  interceptor returns the response and the nil error of the handler and logs the route and
  the duration; but the value it logs as the response is the response itself, the pointer to
  cell 2 the handler returned. No sanitized view of the response is made: the one cell the
  heap gains is the copy of the request wrapper (cell 4), and the token stays readable
  through the logged response. The request entry holds that copy, whose \<^verbatim>\<open>Msg\<close> is still
  the pointer to cell 1. Cells 0 and 2 are wrappers as the connect library declares them.
\<close>

theorem LoggingUnaryInterceptor_logs_raw_response:
  "LoggingUnaryInterceptor
      (\<lambda>ctx req w. (Inr (Some (VPtr (TStruct ''connect.Response'') (Some 2)), None),
                     w\<lparr>clock := clock w + 250\<rparr>))
      []
      \<lparr>Procedure = ''/auth.v1.Auth/Login'', Header = Map.empty, Self = 0\<rparr>
      \<lparr>heap =
         [VStruct ''connect.Request''
            [(''Msg'', VPtr (TStruct ''LoginRequest'') (Some 1)),
             (''spec'', VStruct ''connect.Spec''
                         [(''StreamType'', VInt 0), (''Schema'', VInterface None),
                          (''Procedure'', VString ''/auth.v1.Auth/Login''), (''IsClient'', VBool False),
                          (''IdempotencyLevel'', VInt 0)]),
             (''peer'', VStruct ''connect.Peer''
                         [(''Addr'', VString ''10.0.0.7:51324''), (''Protocol'', VString ''connect''),
                          (''Query'', VMap TString (TSlice TString) None)]),
             (''header'', VMap TString (TSlice TString) (Some [])),
             (''method'', VString ''POST'')],
          VStruct ''LoginRequest'' [(''Username'', VString ''bob''), (''Password'', VString ''hunter2'')],
          VStruct ''connect.Response''
            [(''Msg'', VPtr (TStruct ''LoginResponse'') (Some 3)),
             (''header'', VMap TString (TSlice TString) (Some [])),
             (''trailer'', VMap TString (TSlice TString) (Some []))],
          VStruct ''LoginResponse'' [(''Token'', VString ''eyJhbGciOi'')]],
        loggR = [], clock = 1000\<rparr>
     = (Inr (Some (VPtr (TStruct ''connect.Response'') (Some 2)), None),
        \<lparr>heap =
           [VStruct ''connect.Request''
              [(''Msg'', VPtr (TStruct ''LoginRequest'') (Some 1)),
               (''spec'', VStruct ''connect.Spec''
                         [(''StreamType'', VInt 0), (''Schema'', VInterface None),
                          (''Procedure'', VString ''/auth.v1.Auth/Login''), (''IsClient'', VBool False),
                          (''IdempotencyLevel'', VInt 0)]),
               (''peer'', VStruct ''connect.Peer''
                         [(''Addr'', VString ''10.0.0.7:51324''), (''Protocol'', VString ''connect''),
                          (''Query'', VMap TString (TSlice TString) None)]),
               (''header'', VMap TString (TSlice TString) (Some [])),
               (''method'', VString ''POST'')],
            VStruct ''LoginRequest'' [(''Username'', VString ''bob''), (''Password'', VString ''hunter2'')],
            VStruct ''connect.Response''
              [(''Msg'', VPtr (TStruct ''LoginResponse'') (Some 3)),
               (''header'', VMap TString (TSlice TString) (Some [])),
               (''trailer'', VMap TString (TSlice TString) (Some []))],
            VStruct ''LoginResponse'' [(''Token'', VString ''eyJhbGciOi'')],
            VStruct ''connect.Request''
              [(''Msg'', VPtr (TStruct ''LoginRequest'') (Some 1)),
               (''spec'', VStruct ''connect.Spec''
                         [(''StreamType'', VInt 0), (''Schema'', VInterface None),
                          (''Procedure'', VString []), (''IsClient'', VBool False),
                          (''IdempotencyLevel'', VInt 0)]),
               (''peer'', VStruct ''connect.Peer''
                         [(''Addr'', VString []), (''Protocol'', VString []),
                          (''Query'', VMap TString (TSlice TString) None)]),
               (''header'', VMap TString (TSlice TString) None),
               (''method'', VString [])]],
          loggR = [Entry InfoLevel ''gRPC request received''
                     [zap_String ''method'' ''/auth.v1.Auth/Login'',
                      zap_Any ''request'' (Some (VPtr (TStruct ''connect.Request'') (Some 4)))],
                   Entry InfoLevel ''gRPC request completed''
                     [zap_String ''method'' ''/auth.v1.Auth/Login'',
                      zap_Any ''response'' (Some (VPtr (TStruct ''connect.Response'') (Some 2))),
                      zap_Duration ''duration'' 250]],
          clock = 1250\<rparr>)
   \<and> connect_Request
        (VStruct ''connect.Request''
           [(''Msg'', VPtr (TStruct ''LoginRequest'') (Some 1)),
            (''spec'', VStruct ''connect.Spec''
                         [(''StreamType'', VInt 0), (''Schema'', VInterface None),
                          (''Procedure'', VString ''/auth.v1.Auth/Login''), (''IsClient'', VBool False),
                          (''IdempotencyLevel'', VInt 0)]),
            (''peer'', VStruct ''connect.Peer''
                         [(''Addr'', VString ''10.0.0.7:51324''), (''Protocol'', VString ''connect''),
                          (''Query'', VMap TString (TSlice TString) None)]),
            (''header'', VMap TString (TSlice TString) (Some [])),
            (''method'', VString ''POST'')])
   \<and> connect_Response
        (VStruct ''connect.Response''
           [(''Msg'', VPtr (TStruct ''LoginResponse'') (Some 3)),
            (''header'', VMap TString (TSlice TString) (Some [])),
            (''trailer'', VMap TString (TSlice TString) (Some []))])"
  by (simp add: LoggingUnaryInterceptor_def loggR_Info_def sanitizeRequest_def sanitize_def Elem_def
      request_value_def reflect_New_def reflect_Set_def AssignableTo_def set_field_def case_simps
      Let_def connect_Request_def connect_Response_def)

end
